theory Spec2Isabelle
  imports Main "HOL-Library.Sublist"
begin

section \<open>Python values\<close>

text \<open>
  The rows fetched from the source, the events built from them, the request payloads and
  the decoded JSON bodies are all dynamically typed Python values. A \<open>dict\<close> is kept as
  an association list in insertion order (Python dictionaries iterate in that order);
  its keys are strings throughout this code. Floating point numbers do not occur in any
  property below and are left out of the universe.
\<close>

datatype py =
    PNone
  | PBool bool
  | PInt int
  | PStr string
  | PList "py list"
  | PDict "(string \<times> py) list"

type_synonym dict = "(string \<times> py) list"

text \<open>Python's truth value of an object, as \<open>if x:\<close>, \<open>not x\<close> and \<open>any\<close> use it.\<close>

fun truthy :: "py \<Rightarrow> bool" where
  "truthy PNone = False"
| "truthy (PBool b) = b"
| "truthy (PInt n) = (n \<noteq> 0)"
| "truthy (PStr s) = (s \<noteq> [])"
| "truthy (PList xs) = (xs \<noteq> [])"
| "truthy (PDict kvs) = (kvs \<noteq> [])"

text \<open>
  The enumeration \<open>errors.ErrorNameIDMap\<close> is declared in the module \<open>errors\<close>, which
  the source imports. The three members the source names are constructors of their own;
  every other member (the values of the table \<open>_ERROR_TYPES\<close>) is \<open>OTHER_MEMBER\<close> with
  its name.
\<close>

datatype ErrorNameIDMap =
    RETRIABLE_GA4_HOOK_ERROR_HTTP_ERROR
  | NON_RETRIABLE_ERROR_EVENT_NOT_SENT
  | GA4_HOOK_ERROR_INVALID_VALUES
  | OTHER_MEMBER string

text \<open>
  The \<open>error_num\<close> an exception carries: the source passes either a member of the
  enumeration or (for an undecodable body) the \<open>.value\<close> of a member.
\<close>

datatype error_num = Member ErrorNameIDMap | Value_of ErrorNameIDMap

datatype py_exception =
    DataOutConnectorValueError error_num
  | KeyError string
  | IndexError
  | TypeError
  | OtherException string

text \<open>\<open>d[key] = value\<close>: an existing key keeps its position, a new key goes last.\<close>

fun dict_set :: "(string \<times> 'v) list \<Rightarrow> string \<Rightarrow> 'v \<Rightarrow> (string \<times> 'v) list" where
  "dict_set [] k v = [(k, v)]"
| "dict_set ((k', v') # kvs) k v =
     (if k' = k then (k, v) # kvs else (k', v') # dict_set kvs k v)"

text \<open>\<open>d[key]\<close> on a dictionary: \<open>KeyError\<close> when the key is missing.\<close>

definition dict_getitem :: "dict \<Rightarrow> string \<Rightarrow> py_exception + py" where
  "dict_getitem d k = (case map_of d k of None \<Rightarrow> Inl (KeyError k) | Some v \<Rightarrow> Inr v)"

text \<open>\<open>t[i]\<close> on a tuple or list with \<open>i \<ge> 0\<close>: \<open>IndexError\<close> out of range.\<close>

definition seq_getitem :: "'a list \<Rightarrow> nat \<Rightarrow> py_exception + 'a" where
  "seq_getitem xs i = (if i < length xs then Inr (xs ! i) else Inl IndexError)"

section \<open>RunResult (dags/utils.py)\<close>

record RunResult =
  successful_hits :: int
  failed_hits :: int
  error_messages :: "string list"
  dry_run :: bool

text \<open>\<open>RunResult.__add__\<close>\<close>

definition RunResult_add :: "RunResult \<Rightarrow> RunResult \<Rightarrow> RunResult" where
  "RunResult_add self other =
     (let sh = successful_hits self + successful_hits other;
          fh = failed_hits self + failed_hits other;
          em = error_messages self @ error_messages other;
          dr = (dry_run self \<or> dry_run other)
      in \<lparr>successful_hits = sh, failed_hits = fh, error_messages = em, dry_run = dr\<rparr>)"

section \<open>DrillMixin._parse_data (dags/utils.py)\<close>

text \<open>The inner loop \<open>for i, field in enumerate(fields): event_dict[field] = event[i]\<close>.\<close>

fun fill_event_dict :: "(nat \<times> string) list \<Rightarrow> py list \<Rightarrow> dict \<Rightarrow> py_exception + dict" where
  "fill_event_dict [] event event_dict = Inr event_dict"
| "fill_event_dict ((i, field) # rest) event event_dict =
     (case seq_getitem event i of
        Inl e \<Rightarrow> Inl e
      | Inr v \<Rightarrow> fill_event_dict rest event (dict_set event_dict field v))"

text \<open>The outer loop over the rows, with the list \<open>events\<close> built so far.\<close>

fun parse_data_loop :: "string list \<Rightarrow> py list list \<Rightarrow> dict list \<Rightarrow> py_exception + dict list" where
  "parse_data_loop field_names [] events = Inr events"
| "parse_data_loop field_names (event # rows) events =
     (case fill_event_dict (List.enumerate 0 field_names) event [] of
        Inl e \<Rightarrow> Inl e
      | Inr event_dict \<Rightarrow>
          if list_ex truthy (map snd event_dict)
          then parse_data_loop field_names rows (events @ [event_dict])
          else parse_data_loop field_names rows events)"

text \<open>\<open>DrillMixin._parse_data(fields, rows)\<close>\<close>

definition parse_data :: "string list \<Rightarrow> py list list \<Rightarrow> py_exception + dict list" where
  "parse_data field_names rows = parse_data_loop field_names rows []"

section \<open>GoogleAdsUtils.get_partial_failures (dags/utils.py)\<close>

text \<open>
  The decoded failure message of the Google Ads client library, as far as the source
  reads it: every error has a location whose path elements carry an index, an error code
  (kept as the text its formatting in an f-string gives) and a message.
\<close>

record FieldPathElement =
  index :: int

record GoogleAdsError =
  field_path_elements :: "FieldPathElement list"
  error_code :: string
  message :: string

record GoogleAdsFailure =
  errors :: "GoogleAdsError list"

text \<open>
  The response as \<open>getattr\<close> sees it: an attribute that is missing is \<open>None\<close> here. The
  entries of \<open>details\<close> are opaque blobs of type \<open>'b\<close>.
\<close>

record 'b Status =
  code :: "int option"
  details :: "'b list option"

record 'b MutateResponse =
  partial_failure_error :: "'b Status option"

type_synonym PartialFailures = "int \<rightharpoonup> string"

text \<open>\<open>partial_failures[index] += message\<close> on a \<open>defaultdict(str)\<close>.\<close>

definition add_message :: "PartialFailures \<Rightarrow> int \<Rightarrow> string \<Rightarrow> PartialFailures" where
  "add_message partial_failures i m =
     partial_failures(i \<mapsto> (case partial_failures i of None \<Rightarrow> [] | Some s \<Rightarrow> s) @ m)"

text \<open>The loop \<open>for error in failure_object.errors\<close>.\<close>

fun errors_loop :: "GoogleAdsError list \<Rightarrow> PartialFailures \<Rightarrow> py_exception + PartialFailures" where
  "errors_loop [] partial_failures = Inr partial_failures"
| "errors_loop (error # rest) partial_failures =
     (case seq_getitem (field_path_elements error) 0 of
        Inl e \<Rightarrow> Inl e
      | Inr element \<Rightarrow>
          errors_loop rest
            (add_message partial_failures (index element)
               (''Code: '' @ error_code error @ '', Error: '' @ message error)))"

text \<open>
  The loop \<open>for error_detail in error_details\<close>. \<open>deserialize\<close> stands for
  \<open>GoogleAdsFailure.deserialize(error_detail.value)\<close> of the client library, which
  either raises or gives the decoded failure.
\<close>

fun details_loop ::
  "('b \<Rightarrow> py_exception + GoogleAdsFailure) \<Rightarrow> 'b list \<Rightarrow> PartialFailures
     \<Rightarrow> py_exception + PartialFailures" where
  "details_loop deserialize [] partial_failures = Inr partial_failures"
| "details_loop deserialize (error_detail # rest) partial_failures =
     (case deserialize error_detail of
        Inl e \<Rightarrow> Inl e
      | Inr failure_object \<Rightarrow>
          (case errors_loop (errors failure_object) partial_failures of
             Inl e \<Rightarrow> Inl e
           | Inr pf \<Rightarrow> details_loop deserialize rest pf))"

text \<open>\<open>GoogleAdsUtils.get_partial_failures(client, response)\<close>\<close>

definition get_partial_failures ::
  "('b \<Rightarrow> py_exception + GoogleAdsFailure) \<Rightarrow> 'b MutateResponse
     \<Rightarrow> py_exception + PartialFailures" where
  "get_partial_failures deserialize response =
     (let partial_failure = partial_failure_error response;
          c = (case partial_failure of None \<Rightarrow> None | Some st \<Rightarrow> code st)
      in if c = Some 0 then Inr Map.empty
         else
           let error_details =
                 (case partial_failure of
                    None \<Rightarrow> []
                  | Some st \<Rightarrow> (case details st of None \<Rightarrow> [] | Some ds \<Rightarrow> ds))
           in details_loop deserialize error_details Map.empty)"

section \<open>The GA4 Measurement Protocol destination (dags/destinations/ga4mp.py)\<close>

text \<open>
  \<open>PayloadTypes\<close> is an enumeration the source names without declaring it. The
  attribute \<open>payload_type\<close> of a destination is \<open>Some\<close> member when the configured value
  equals that member's value, and \<open>None\<close> when it equals neither.
\<close>

datatype PayloadTypes = FIREBASE | GTAG

text \<open>The attributes of a \<open>Destination\<close> that validation reads.\<close>

record Destination =
  payload_type :: "PayloadTypes option"
  non_personalized_ads :: py
  user_properties :: py
  validate_url :: string

text \<open>A \<open>requests.Response\<close>: the status and what \<open>response.json()\<close> gives, \<open>None\<close> when
  it raises \<open>json.JSONDecodeError\<close>.\<close>

record Response =
  status_code :: int
  json :: "py option"

text \<open>
  What a call of \<open>requests.post\<close> does: it returns a response, raises
  \<open>requests.ConnectionError\<close>, or raises another exception.
\<close>

datatype post_outcome =
    Responds Response
  | Raises_ConnectionError
  | Raises_other py_exception

text \<open>\<open>requests.post(url, json=body)\<close>, a parameter of the model.\<close>

type_synonym requests_post = "string \<Rightarrow> dict \<Rightarrow> post_outcome"

text \<open>
  The table \<open>_ERROR_TYPES\<close>, a dictionary from field names to members of
  \<open>ErrorNameIDMap\<close>, as the list of its items in iteration order; a parameter of the
  model, since the source names the table without declaring it.
\<close>

type_synonym error_types = "(string \<times> ErrorNameIDMap) list"

text \<open>
  \<open>x[key]\<close> with a string key on any decoded JSON value: a list or a string takes
  integer indices only, and \<open>None\<close>, booleans and numbers take none.
\<close>

fun py_getitem :: "py \<Rightarrow> string \<Rightarrow> py_exception + py" where
  "py_getitem (PDict kvs) k = dict_getitem kvs k"
| "py_getitem v k = Inl TypeError"

text \<open>\<open>x[0]\<close> on any decoded JSON value (the keys of a decoded object are strings).\<close>

fun py_getitem0 :: "py \<Rightarrow> py_exception + py" where
  "py_getitem0 (PList xs) = seq_getitem xs 0"
| "py_getitem0 (PStr s) = (case s of [] \<Rightarrow> Inl IndexError | c # cs \<Rightarrow> Inr (PStr [c]))"
| "py_getitem0 (PDict kvs) = Inl (KeyError ''0'')"
| "py_getitem0 v = Inl TypeError"

text \<open>\<open>needle in haystack\<close> on strings: \<open>needle\<close> occurs as a contiguous part.\<close>

fun str_contains :: "string \<Rightarrow> string \<Rightarrow> bool" where
  "str_contains needle [] = (needle = [])"
| "str_contains needle (c # cs) = (prefix needle (c # cs) \<or> str_contains needle cs)"

text \<open>\<open>name in x\<close> for a string \<open>name\<close> and any decoded JSON value \<open>x\<close>.\<close>

fun py_contains :: "string \<Rightarrow> py \<Rightarrow> py_exception + bool" where
  "py_contains name (PStr s) = Inr (str_contains name s)"
| "py_contains name (PList xs) = Inr (PStr name \<in> set xs)"
| "py_contains name (PDict kvs) = Inr (name \<in> set (map fst kvs))"
| "py_contains name v = Inl TypeError"

text \<open>
  The statements of \<open>_get_valid_and_invalid_events\<close> that build the payload of one
  event, in the order in which they read the event.
\<close>

definition build_payload :: "Destination \<Rightarrow> dict \<Rightarrow> py_exception + dict" where
  "build_payload self event =
     (case (if payload_type self = Some FIREBASE
            then (case dict_getitem event ''app_instance_id'' of
                    Inl e \<Rightarrow> Inl e
                  | Inr v \<Rightarrow> Inr (dict_set [] ''app_instance_id'' v))
            else if payload_type self = Some GTAG
            then (case dict_getitem event ''client_id'' of
                    Inl e \<Rightarrow> Inl e
                  | Inr v \<Rightarrow> Inr (dict_set [] ''client_id'' v))
            else Inr []) of
        Inl e \<Rightarrow> Inl e
      | Inr p0 \<Rightarrow>
     (case dict_getitem event ''user_id'' of
        Inl e \<Rightarrow> Inl e
      | Inr user_id \<Rightarrow>
     (let p1 = dict_set p0 ''user_id'' user_id;
          p2 = dict_set p1 ''non_personalized_ads'' (non_personalized_ads self);
          p3 = (if truthy (user_properties self)
                then dict_set p2 ''user_properties'' (user_properties self) else p2)
      in
     (case dict_getitem event ''event_name'' of
        Inl e \<Rightarrow> Inl e
      | Inr event_name \<Rightarrow>
     (case dict_getitem event ''engagement_time_msec'' of
        Inl e \<Rightarrow> Inl e
      | Inr engagement_time_msec \<Rightarrow>
     (case dict_getitem event ''session_id'' of
        Inl e \<Rightarrow> Inl e
      | Inr session_id \<Rightarrow>
          Inr (dict_set p3 ''events''
                 (PList [PDict [(''name'', event_name),
                                (''params'',
                                 PDict [(''engagement_time_msec'', engagement_time_msec),
                                        (''session_id'', session_id)])]]))))))))"

text \<open>\<open>Destination._send_validate_request(payload)\<close>\<close>

definition send_validate_request ::
  "Destination \<Rightarrow> requests_post \<Rightarrow> dict \<Rightarrow> py_exception + Response" where
  "send_validate_request self post payload =
     (let validating_payload =
            dict_set payload ''validationBehavior'' (PStr ''ENFORCE_RECOMMENDATIONS'')
      in case post (validate_url self) validating_payload of
           Responds response \<Rightarrow> Inr response
         | Raises_ConnectionError \<Rightarrow>
             Inl (DataOutConnectorValueError (Member RETRIABLE_GA4_HOOK_ERROR_HTTP_ERROR))
         | Raises_other e \<Rightarrow> Inl e)"

text \<open>
  The loop \<open>for property_name in _ERROR_TYPES\<close>: it raises at the first name that
  equals the field path or occurs in the description, and \<open>Inr ()\<close> is falling through.
  The right operand of \<open>or\<close> is evaluated only when the left one is false.
\<close>

fun error_types_loop :: "error_types \<Rightarrow> py \<Rightarrow> py \<Rightarrow> py_exception + unit" where
  "error_types_loop [] field_path description = Inr ()"
| "error_types_loop ((property_name, error_id) # rest) field_path description =
     (if field_path = PStr property_name
      then Inl (DataOutConnectorValueError (Member error_id))
      else (case py_contains property_name description of
              Inl e \<Rightarrow> Inl e
            | Inr True \<Rightarrow> Inl (DataOutConnectorValueError (Member error_id))
            | Inr False \<Rightarrow> error_types_loop rest field_path description))"

text \<open>A record of \<open>logging.error\<close> with the two values it formats.\<close>

datatype log_record = Log_error py py

text \<open>
  \<open>Destination._parse_validate_result(event, response)\<close>: what it raises (\<open>Inr ()\<close> when
  it returns), and the records it logs. What it prints to standard output is left out.
\<close>

definition parse_validate_result ::
  "error_types \<Rightarrow> dict \<Rightarrow> Response \<Rightarrow> (py_exception + unit) \<times> log_record list" where
  "parse_validate_result ERROR_TYPES event response =
     (if status_code response \<ge> 500
      then (Inl (DataOutConnectorValueError (Member RETRIABLE_GA4_HOOK_ERROR_HTTP_ERROR)), [])
      else if status_code response \<noteq> 200
      then (Inl (DataOutConnectorValueError (Member NON_RETRIABLE_ERROR_EVENT_NOT_SENT)), [])
      else
     (case json response of
        None \<Rightarrow>
          (Inl (DataOutConnectorValueError (Value_of RETRIABLE_GA4_HOOK_ERROR_HTTP_ERROR)), [])
      | Some validation_result \<Rightarrow>
     (case py_getitem validation_result ''validationMessages'' of
        Inl e \<Rightarrow> (Inl e, [])
      | Inr validation_messages \<Rightarrow>
          if \<not> truthy validation_messages then (Inr (), [])
          else
     (case py_getitem0 validation_messages of
        Inl e \<Rightarrow> (Inl e, [])
      | Inr msg \<Rightarrow>
     (case py_getitem msg ''fieldPath'' of
        Inl e \<Rightarrow> (Inl e, [])
      | Inr field_path \<Rightarrow>
     (case py_getitem msg ''description'' of
        Inl e \<Rightarrow> (Inl e, [])
      | Inr description \<Rightarrow>
     (case error_types_loop ERROR_TYPES field_path description of
        Inl e \<Rightarrow> (Inl e, [])
      | Inr u \<Rightarrow>
          (Inl (DataOutConnectorValueError (Member GA4_HOOK_ERROR_INVALID_VALUES)),
           [Log_error field_path description]))))))))"

text \<open>
  The loop of \<open>_get_valid_and_invalid_events\<close> over \<open>enumerate(events)\<close>, with both
  result lists as built so far. \<open>post i\<close> is \<open>requests.post\<close> as it behaves at the
  request made for the event at position \<open>i\<close>. An exception other than
  \<open>DataOutConnectorValueError\<close> leaves the loop; so does any exception raised while the
  payload is built, which happens before the \<open>try\<close>. The logged records are not part
  of the result.
\<close>

fun events_loop ::
  "Destination \<Rightarrow> error_types \<Rightarrow> (nat \<Rightarrow> requests_post) \<Rightarrow> (nat \<times> dict) list
     \<Rightarrow> (nat \<times> dict) list \<times> (nat \<times> error_num) list
     \<Rightarrow> py_exception + (nat \<times> dict) list \<times> (nat \<times> error_num) list" where
  "events_loop self ERROR_TYPES post [] acc = Inr acc"
| "events_loop self ERROR_TYPES post ((i, event) # rest) (valid_events, invalid_indices_and_errors) =
     (case build_payload self event of
        Inl e \<Rightarrow> Inl e
      | Inr payload \<Rightarrow>
     (case (case send_validate_request self (post i) payload of
              Inl e \<Rightarrow> Inl e
            | Inr response \<Rightarrow> fst (parse_validate_result ERROR_TYPES event response)) of
        Inr u \<Rightarrow>
          events_loop self ERROR_TYPES post rest
            (valid_events @ [(i, event)], invalid_indices_and_errors)
      | Inl (DataOutConnectorValueError n) \<Rightarrow>
          events_loop self ERROR_TYPES post rest
            (valid_events, invalid_indices_and_errors @ [(i, n)])
      | Inl e \<Rightarrow> Inl e))"

text \<open>\<open>Destination._get_valid_and_invalid_events(events)\<close>\<close>

definition get_valid_and_invalid_events ::
  "Destination \<Rightarrow> error_types \<Rightarrow> (nat \<Rightarrow> requests_post) \<Rightarrow> dict list
     \<Rightarrow> py_exception + (nat \<times> dict) list \<times> (nat \<times> error_num) list" where
  "get_valid_and_invalid_events self ERROR_TYPES post events =
     events_loop self ERROR_TYPES post (List.enumerate 0 events) ([], [])"

text \<open>
  \<open>Destination.fields(self, config)\<close>. The argument is \<open>None\<close> here when the call passes
  no \<open>config\<close>: Python then raises \<open>TypeError\<close> for the missing positional argument
  before the body runs.
\<close>

definition destination_fields :: "dict option \<Rightarrow> py_exception + string list" where
  "destination_fields config =
     (case config of
        None \<Rightarrow> Inl TypeError
      | Some c \<Rightarrow> Inr [''user_id'', ''event_name'', ''engagement_time_msec'', ''session_id''])"

text \<open>The loop of \<open>Destination._parse_input_data\<close> over the rows; it keeps every row.\<close>

fun parse_input_data_loop :: "string list \<Rightarrow> py list list \<Rightarrow> dict list \<Rightarrow> py_exception + dict list" where
  "parse_input_data_loop field_names [] events = Inr events"
| "parse_input_data_loop field_names (event # rows) events =
     (case fill_event_dict (List.enumerate 0 field_names) event [] of
        Inl e \<Rightarrow> Inl e
      | Inr event_dict \<Rightarrow> parse_input_data_loop field_names rows (events @ [event_dict]))"

text \<open>\<open>Destination._parse_input_data(rows)\<close>, which calls \<open>self.fields()\<close> with no argument.\<close>

definition parse_input_data :: "py list list \<Rightarrow> py_exception + dict list" where
  "parse_input_data rows =
     (case destination_fields None of
        Inl e \<Rightarrow> Inl e
      | Inr field_names \<Rightarrow> parse_input_data_loop field_names rows [])"

section \<open>Vocabulary of the properties\<close>

subsection \<open>Partial failures\<close>

text \<open>The text one error contributes, and the batch index it is filed under.\<close>

definition error_text :: "GoogleAdsError \<Rightarrow> string" where
  "error_text error = ''Code: '' @ error_code error @ '', Error: '' @ message error"

definition error_index :: "GoogleAdsError \<Rightarrow> int" where
  "error_index error = index (hd (field_path_elements error))"

text \<open>
  The texts of the errors filed under index \<open>k\<close>, in the order of the errors.
\<close>

definition texts_at :: "GoogleAdsError list \<Rightarrow> int \<Rightarrow> string list" where
  "texts_at es k = map error_text (filter (\<lambda>e. error_index e = k) es)"

text \<open>
  A map of partial failures after the errors \<open>es\<close> have been added to it.
\<close>

definition accumulate :: "PartialFailures \<Rightarrow> GoogleAdsError list \<Rightarrow> PartialFailures" where
  "accumulate pf es k =
     (if texts_at es k = [] then pf k
      else Some ((case pf k of None \<Rightarrow> [] | Some s \<Rightarrow> s) @ concat (texts_at es k)))"

subsection \<open>Validation of a batch\<close>

text \<open>
  What one pass of the loop does with an event: it joins the valid events, it joins the
  invalid ones with an error number, or an exception leaves the function.
\<close>

datatype event_outcome = Valid | Invalid error_num | Escapes py_exception

text \<open>
  The statements inside the \<open>try\<close> of the loop: the request and the reading of the answer.
\<close>

definition validate_event ::
  "Destination \<Rightarrow> error_types \<Rightarrow> requests_post \<Rightarrow> dict \<Rightarrow> dict \<Rightarrow> py_exception + unit" where
  "validate_event self ERROR_TYPES post event payload =
     (case send_validate_request self post payload of
        Inl e \<Rightarrow> Inl e
      | Inr response \<Rightarrow> fst (parse_validate_result ERROR_TYPES event response))"

text \<open>
  The outcome of one pass: the payload is built outside the \<open>try\<close>, and only
  \<open>DataOutConnectorValueError\<close> is caught.
\<close>

definition classify_event ::
  "Destination \<Rightarrow> error_types \<Rightarrow> requests_post \<Rightarrow> dict \<Rightarrow> event_outcome" where
  "classify_event self ERROR_TYPES post event =
     (case build_payload self event of
        Inl e \<Rightarrow> Escapes e
      | Inr payload \<Rightarrow>
          (case validate_event self ERROR_TYPES post event payload of
             Inr u \<Rightarrow> Valid
           | Inl (DataOutConnectorValueError n) \<Rightarrow> Invalid n
           | Inl e \<Rightarrow> Escapes e))"

text \<open>
  The outcome of the pass for the indexed event \<open>p\<close>, and the two lists the outcomes of a
  list of indexed events give.
\<close>

definition outcome_at ::
  "Destination \<Rightarrow> error_types \<Rightarrow> (nat \<Rightarrow> requests_post) \<Rightarrow> nat \<times> dict \<Rightarrow> event_outcome" where
  "outcome_at self ERROR_TYPES post p = classify_event self ERROR_TYPES (post (fst p)) (snd p)"

definition valid_part :: "(nat \<times> dict \<Rightarrow> event_outcome) \<Rightarrow> (nat \<times> dict) list \<Rightarrow> (nat \<times> dict) list" where
  "valid_part c ps = filter (\<lambda>p. c p = Valid) ps"

definition invalid_part :: "(nat \<times> dict \<Rightarrow> event_outcome) \<Rightarrow> (nat \<times> dict) list \<Rightarrow> (nat \<times> error_num) list" where
  "invalid_part c ps =
     concat (map (\<lambda>p. case c p of Invalid n \<Rightarrow> [(fst p, n)] | _ \<Rightarrow> []) ps)"

text \<open>
  An event carries every field the payload is built from.
\<close>

definition event_has_fields :: "Destination \<Rightarrow> dict \<Rightarrow> bool" where
  "event_has_fields self event \<longleftrightarrow>
     (payload_type self = Some FIREBASE \<longrightarrow> ''app_instance_id'' \<in> set (map fst event))
   \<and> (payload_type self = Some GTAG \<longrightarrow> ''client_id'' \<in> set (map fst event))
   \<and> ''user_id'' \<in> set (map fst event)
   \<and> ''event_name'' \<in> set (map fst event)
   \<and> ''engagement_time_msec'' \<in> set (map fst event)
   \<and> ''session_id'' \<in> set (map fst event)"

text \<open>
  The body the validation API documents:
  \<open>{"validationMessages": [{"fieldPath": ..., "description": ..., ...}, ...]}\<close>, with a
  string for every description.
\<close>

fun is_validation_message :: "py \<Rightarrow> bool" where
  "is_validation_message (PDict m) =
     (map_of m ''fieldPath'' \<noteq> None
      \<and> (case map_of m ''description'' of Some (PStr d) \<Rightarrow> True | _ \<Rightarrow> False))"
| "is_validation_message v = False"

fun is_validation_body :: "py \<Rightarrow> bool" where
  "is_validation_body (PDict body) =
     (case map_of body ''validationMessages'' of
        Some (PList msgs) \<Rightarrow> list_all is_validation_message msgs
      | _ \<Rightarrow> False)"
| "is_validation_body v = False"

text \<open>
  A request ends well-formed when it raises \<open>requests.ConnectionError\<close> or is answered,
  and an answer with status 200 that decodes has the documented body.
\<close>

fun well_formed_outcome :: "post_outcome \<Rightarrow> bool" where
  "well_formed_outcome (Responds response) =
     (status_code response \<noteq> 200
      \<or> (case json response of None \<Rightarrow> True | Some body \<Rightarrow> is_validation_body body))"
| "well_formed_outcome Raises_ConnectionError = True"
| "well_formed_outcome (Raises_other e) = False"

text \<open>
  The two lists split the batch: indices ascending in each list, no index in both, every
  index of the batch in one of them, and a valid entry holding the event of its index.
\<close>

definition splits_batch :: "dict list \<Rightarrow> (nat \<times> dict) list \<Rightarrow> (nat \<times> error_num) list \<Rightarrow> bool" where
  "splits_batch events valid invalid \<longleftrightarrow>
     sorted_wrt (<) (map fst valid)
   \<and> sorted_wrt (<) (map fst invalid)
   \<and> set (map fst valid) \<inter> set (map fst invalid) = {}
   \<and> set (map fst valid) \<union> set (map fst invalid) = {0..<length events}
   \<and> list_all (\<lambda>(i, event). event = events ! i) valid
   \<and> length valid + length invalid = length events"

section \<open>Example data\<close>

definition five_fields :: "string list" where
  "five_fields = [''a'', ''b'', ''c'', ''d'', ''e'']"

definition undecodable :: "unit \<Rightarrow> py_exception + GoogleAdsFailure" where
  "undecodable blob = Inl (OtherException ''DecodeError'')"

definition example_errors :: "GoogleAdsError list" where
  "example_errors =
     [\<lparr>field_path_elements = [\<lparr>index = 1\<rparr>], error_code = ''A'', message = ''msgA''\<rparr>,
      \<lparr>field_path_elements = [\<lparr>index = 1\<rparr>], error_code = ''B'', message = ''msgB''\<rparr>,
      \<lparr>field_path_elements = [\<lparr>index = 2\<rparr>], error_code = ''C'', message = ''msgC''\<rparr>]"

definition example_response :: "GoogleAdsFailure MutateResponse" where
  "example_response = \<lparr>partial_failure_error = Some \<lparr>code = Some 3, details = Some [\<lparr>errors = example_errors\<rparr>]\<rparr>\<rparr>"

definition example_destination :: Destination where
  "example_destination =
     \<lparr>payload_type = Some GTAG, non_personalized_ads = PBool False,
      user_properties = PNone, validate_url = ''https://validate''\<rparr>"

definition example_event :: dict where
  "example_event =
     [(''client_id'', PStr ''c1''), (''user_id'', PStr ''u1''),
      (''event_name'', PStr ''purchase''), (''engagement_time_msec'', PInt 500),
      (''session_id'', PStr ''s1'')]"

definition example_error_types :: error_types where
  "example_error_types =
     [(''client_id'', OTHER_MEMBER ''GA4_HOOK_ERROR_VALUE_INVALID_CLIENT_ID''),
      (''timestamp_micros'', OTHER_MEMBER ''GA4_HOOK_ERROR_VALUE_INVALID_TIMESTAMP_MICROS'')]"

definition no_messages :: Response where
  "no_messages = \<lparr>status_code = 200, json = Some (PDict [(''validationMessages'', PList [])])\<rparr>"

definition empty_object :: Response where
  "empty_object = \<lparr>status_code = 200, json = Some (PDict [])\<rparr>"

definition unavailable :: Response where
  "unavailable = \<lparr>status_code = 503, json = None\<rparr>"

definition messages_response :: "py list \<Rightarrow> Response" where
  "messages_response msgs =
     \<lparr>status_code = 200, json = Some (PDict [(''validationMessages'', PList msgs)])\<rparr>"

definition timestamp_message :: py where
  "timestamp_message =
     PDict [(''fieldPath'', PStr ''timestamp_micros''),
            (''description'', PStr ''Measurement timestamp_micros has timestamp too far in the past''),
            (''validationCode'', PStr ''VALUE_INVALID'')]"

definition client_id_message :: py where
  "client_id_message =
     PDict [(''fieldPath'', PStr ''''),
            (''description'', PStr ''Missing client_id''),
            (''validationCode'', PStr ''VALUE_REQUIRED'')]"

definition unknown_message :: py where
  "unknown_message =
     PDict [(''fieldPath'', PStr ''events''),
            (''description'', PStr ''Event has no name''),
            (''validationCode'', PStr ''NAME_INVALID'')]"

definition mixed_post :: "nat \<Rightarrow> requests_post" where
  "mixed_post i url body =
     (if i = 0 then Responds no_messages
      else if i = 1 then Raises_ConnectionError
      else Responds unavailable)"

definition empty_object_post :: "nat \<Rightarrow> requests_post" where
  "empty_object_post i url body = Responds empty_object"

definition no_messages_post :: "nat \<Rightarrow> requests_post" where
  "no_messages_post i url body = Responds no_messages"

definition refused_post :: "nat \<Rightarrow> requests_post" where
  "refused_post i url body = Raises_ConnectionError"

definition connection_refused_post :: requests_post where
  "connection_refused_post url body = Raises_ConnectionError"

text \<open>An answer with status 200 whose body \<open>response.json()\<close> cannot decode.\<close>

definition undecodable_body :: Response where
  "undecodable_body = \<lparr>status_code = 200, json = None\<rparr>"

definition undecodable_body_post :: "nat \<Rightarrow> requests_post" where
  "undecodable_body_post i url body = Responds undecodable_body"

definition unavailable_post :: "nat \<Rightarrow> requests_post" where
  "unavailable_post i url body = Responds unavailable"

text \<open>
  A validation message with no \<open>fieldPath\<close>, the field named in its description: the
  message \<open>client_id_message\<close> without its first entry.
\<close>

definition description_only_message :: py where
  "description_only_message =
     PDict [(''description'', PStr ''Missing client_id''),
            (''validationCode'', PStr ''VALUE_REQUIRED'')]"

definition description_only_post :: "nat \<Rightarrow> requests_post" where
  "description_only_post i url body = Responds (messages_response [description_only_message])"

definition client_id_post :: "nat \<Rightarrow> requests_post" where
  "client_id_post i url body = Responds (messages_response [client_id_message])"

section \<open>Merging run results\<close>

text \<open>
  C8. Adding two run results sums the successful hits and the failed hits, puts the left
  operand's messages before the right operand's (so the merged sequence has as many
  messages as both operands together) and takes the disjunction of the dry-run flags.
  Addition is associative, and commutative on both counts.
\<close>

theorem RunResult_add_laws:
  "successful_hits (RunResult_add a b) = successful_hits a + successful_hits b
   \<and> failed_hits (RunResult_add a b) = failed_hits a + failed_hits b
   \<and> error_messages (RunResult_add a b) = error_messages a @ error_messages b
   \<and> length (error_messages (RunResult_add a b))
       = length (error_messages a) + length (error_messages b)
   \<and> dry_run (RunResult_add a b) = (dry_run a \<or> dry_run b)
   \<and> RunResult_add a (RunResult_add b c) = RunResult_add (RunResult_add a b) c
   \<and> successful_hits (RunResult_add a b) = successful_hits (RunResult_add b a)
   \<and> failed_hits (RunResult_add a b) = failed_hits (RunResult_add b a)"
  by (simp add: RunResult_add_def Let_def)

section \<open>Mapping rows to events\<close>

lemma dict_set_fresh: "k \<notin> set (map fst d) \<Longrightarrow> dict_set d k v = d @ [(k, v)]"
  by (induction d) auto

lemma fill_event_dict_distinct:
  "distinct fs \<Longrightarrow> set fs \<inter> set (map fst d) = {} \<Longrightarrow> k + length fs \<le> length event
   \<Longrightarrow> fill_event_dict (List.enumerate k fs) event d = Inr (d @ zip fs (drop k event))"
proof (induction fs arbitrary: k d)
  case Nil
  then show ?case by simp
next
  case (Cons f fs)
  have k: "k < length event" using Cons.prems(3) by simp
  have fresh: "f \<notin> set (map fst d)" using Cons.prems(2) by auto
  have d': "dict_set d f (event ! k) = d @ [(f, event ! k)]"
    using fresh by (rule dict_set_fresh)
  have ih: "fill_event_dict (List.enumerate (Suc k) fs) event (d @ [(f, event ! k)])
            = Inr ((d @ [(f, event ! k)]) @ zip fs (drop (Suc k) event))"
    using Cons.prems by (intro Cons.IH) auto
  have dr: "drop k event = event ! k # drop (Suc k) event"
    using k by (simp add: Cons_nth_drop_Suc)
  show ?case using k d' ih dr by (simp add: seq_getitem_def)
qed

lemma fill_event_dict_zip:
  "distinct fs \<Longrightarrow> length fs \<le> length event
   \<Longrightarrow> fill_event_dict (List.enumerate 0 fs) event [] = Inr (zip fs event)"
  using fill_event_dict_distinct [of fs "[]" 0 event] by simp

lemma any_zip_values:
  assumes "length fs \<le> length row"
  shows "list_ex truthy (map snd (zip fs row)) = (\<exists>i<length fs. truthy (row ! i))"
proof -
  let ?n = "length fs"
  have len: "length (take ?n row) = ?n" using assms by simp
  have "map snd (zip fs row) = take ?n row"
    using assms by (simp add: map_snd_zip_take min_def)
  then have "list_ex truthy (map snd (zip fs row)) = (\<exists>x\<in>set (take ?n row). truthy x)"
    by (simp add: list_ex_iff)
  also have "\<dots> = (\<exists>i<?n. truthy (row ! i))"
  proof
    assume "\<exists>x\<in>set (take ?n row). truthy x"
    then obtain i where "i < length (take ?n row)" and "truthy (take ?n row ! i)"
      by (auto simp: in_set_conv_nth)
    then have "i < ?n" and "truthy (row ! i)" using len by simp_all
    then show "\<exists>i<?n. truthy (row ! i)" by blast
  next
    assume "\<exists>i<?n. truthy (row ! i)"
    then obtain i where i: "i < ?n" and t: "truthy (row ! i)" by blast
    have "take ?n row ! i \<in> set (take ?n row)" using i len by (intro nth_mem) simp
    moreover have "take ?n row ! i = row ! i" using i by simp
    ultimately show "\<exists>x\<in>set (take ?n row). truthy x" using t by auto
  qed
  finally show ?thesis .
qed

lemma parse_data_loop_distinct:
  "distinct fs \<Longrightarrow> \<forall>row\<in>set rows. length fs \<le> length row \<Longrightarrow>
   parse_data_loop fs rows acc =
     Inr (acc @ map (zip fs) (filter (\<lambda>row. \<exists>i<length fs. truthy (row ! i)) rows))"
proof (induction rows arbitrary: acc)
  case Nil
  then show ?case by simp
next
  case (Cons row rows)
  then show ?case by (simp add: fill_event_dict_zip any_zip_values)
qed

text \<open>
  C9, for \<open>DrillMixin._parse_data\<close> and pairwise distinct field names. When every row has
  at least as many values as there are field names, the result is, in the order of the
  rows, one mapping per retained row; the mapping pairs the field names in their order
  with the row's values at the same positions; and a row is retained exactly when one of
  the values at those positions is truthy.
\<close>

theorem parse_data_distinct_fields:
  assumes "distinct field_names" and "\<forall>row\<in>set rows. length field_names \<le> length row"
  shows "parse_data field_names rows =
           Inr (map (zip field_names)
                  (filter (\<lambda>row. \<exists>i<length field_names. truthy (row ! i)) rows))
       \<and> (\<forall>row\<in>set rows. \<forall>i<length field_names.
            zip field_names row ! i = (field_names ! i, row ! i)
            \<and> map_of (zip field_names row) (field_names ! i) = Some (row ! i))"
proof
  show "parse_data field_names rows =
           Inr (map (zip field_names)
                  (filter (\<lambda>row. \<exists>i<length field_names. truthy (row ! i)) rows))"
    using assms by (simp add: parse_data_def parse_data_loop_distinct)
next
  show "\<forall>row\<in>set rows. \<forall>i<length field_names.
            zip field_names row ! i = (field_names ! i, row ! i)
            \<and> map_of (zip field_names row) (field_names ! i) = Some (row ! i)"
  proof (intro ballI allI impI)
    fix row i assume r: "row \<in> set rows" and i: "i < length field_names"
    then have len: "i < length row" using assms(2) by fastforce
    have d: "distinct (map fst (zip field_names row))"
      using assms(1) by (simp add: distinct_take map_fst_zip_take)
    have n: "zip field_names row ! i = (field_names ! i, row ! i)"
      using i len by simp
    have "(field_names ! i, row ! i) \<in> set (zip field_names row)"
      using nth_mem [of i "zip field_names row"] i len by simp
    with d have "map_of (zip field_names row) (field_names ! i) = Some (row ! i)"
      by (rule map_of_is_SomeI)
    with n show "zip field_names row ! i = (field_names ! i, row ! i)
            \<and> map_of (zip field_names row) (field_names ! i) = Some (row ! i)" by simp
  qed
qed

theorem parse_data_distinct_fields_witness:
  "parse_data five_fields
     [[PStr '''', PNone, PInt 0, PStr ''x'', PNone],
      [PStr '''', PNone, PInt 0, PStr '''', PNone],
      [PStr ''y'', PNone, PInt 0, PStr '''', PNone, PStr ''extra'']]
   = Inr [[(''a'', PStr ''''), (''b'', PNone), (''c'', PInt 0), (''d'', PStr ''x''), (''e'', PNone)],
          [(''a'', PStr ''y''), (''b'', PNone), (''c'', PInt 0), (''d'', PStr ''''), (''e'', PNone)]]"
proof -
  let ?rows = "[[PStr '''', PNone, PInt 0, PStr ''x'', PNone],
      [PStr '''', PNone, PInt 0, PStr '''', PNone],
      [PStr ''y'', PNone, PInt 0, PStr '''', PNone, PStr ''extra'']]"
  have d: "distinct five_fields" by (simp add: five_fields_def)
  have l: "\<forall>row\<in>set ?rows. length five_fields \<le> length row" by (simp add: five_fields_def)
  have keep: "filter (\<lambda>row. \<exists>i<length five_fields. truthy (row ! i)) ?rows
              = [[PStr '''', PNone, PInt 0, PStr ''x'', PNone],
                 [PStr ''y'', PNone, PInt 0, PStr '''', PNone, PStr ''extra'']]"
    by (simp add: five_fields_def Ex_less_Suc)
  from parse_data_distinct_fields [OF d l] have
    "parse_data five_fields ?rows =
       Inr (map (zip five_fields)
              (filter (\<lambda>row. \<exists>i<length five_fields. truthy (row ! i)) ?rows))"
    by (rule conjunct1)
  then show ?thesis unfolding keep by (simp add: five_fields_def)
qed

text \<open>
  With a field name that occurs twice the later column overwrites the earlier one: the
  mapping no longer pairs position 0 with its value, and a row whose only truthy value
  was overwritten is dropped. The GA4 destination's own field mapping keeps a row of
  empty values, and as written it raises before it maps any row.
\<close>

theorem field_mapping_counterexample:
  "parse_data [''a'', ''a''] [[PInt 1, PInt 2]] = Inr [[(''a'', PInt 2)]]
   \<and> parse_data [''a'', ''a''] [[PInt 1, PInt 0]] = Inr []
   \<and> parse_input_data_loop [''user_id'', ''event_name''] [[PNone, PStr '''']] []
       = Inr [[(''user_id'', PNone), (''event_name'', PStr '''')]]
   \<and> parse_input_data [[PStr ''u1'', PStr ''purchase'', PInt 500, PStr ''s1'']] = Inl TypeError"
  by (simp add: parse_data_def parse_input_data_def destination_fields_def enumerate_eq_zip
        seq_getitem_def)

section \<open>Partial failures of a batch\<close>

lemma accumulate_Nil: "accumulate pf [] = pf"
  by (rule ext) (simp add: accumulate_def texts_at_def)

lemma accumulate_Cons:
  "accumulate (add_message pf (error_index e) (error_text e)) es = accumulate pf (e # es)"
  by (rule ext) (simp add: accumulate_def texts_at_def add_message_def)

lemma accumulate_append: "accumulate (accumulate pf es) es' = accumulate pf (es @ es')"
  by (rule ext) (auto simp: accumulate_def texts_at_def split: option.splits)

lemma accumulate_empty:
  "accumulate Map.empty es =
     (\<lambda>k. if texts_at es k = [] then None else Some (concat (texts_at es k)))"
  by (rule ext) (simp add: accumulate_def)

lemma errors_loop_accumulate:
  "\<forall>e\<in>set es. field_path_elements e \<noteq> [] \<Longrightarrow> errors_loop es pf = Inr (accumulate pf es)"
proof (induction es arbitrary: pf)
  case Nil
  show ?case by (simp add: accumulate_Nil)
next
  case (Cons e es)
  have ne: "field_path_elements e \<noteq> []" using Cons.prems by simp
  have hd0: "seq_getitem (field_path_elements e) 0 = Inr (hd (field_path_elements e))"
    using ne by (simp add: seq_getitem_def hd_conv_nth)
  have "errors_loop (e # es) pf
        = errors_loop es (add_message pf (error_index e) (error_text e))"
    by (simp add: hd0 error_index_def error_text_def)
  also have "\<dots> = Inr (accumulate (add_message pf (error_index e) (error_text e)) es)"
    using Cons.prems by (intro Cons.IH) simp
  finally show ?case by (simp add: accumulate_Cons)
qed

lemma details_loop_accumulate:
  "map deserialize ds = map Inr fs \<Longrightarrow>
   \<forall>f\<in>set fs. \<forall>e\<in>set (errors f). field_path_elements e \<noteq> [] \<Longrightarrow>
   details_loop deserialize ds pf = Inr (accumulate pf (concat (map errors fs)))"
proof (induction ds arbitrary: fs pf)
  case Nil
  then show ?case by (simp add: accumulate_Nil)
next
  case (Cons d ds)
  from Cons.prems(1) obtain f fs' where fs: "fs = f # fs'" and d: "deserialize d = Inr f"
    and rest: "map deserialize ds = map Inr fs'"
    by (cases fs) auto
  have el: "errors_loop (errors f) pf = Inr (accumulate pf (errors f))"
    using Cons.prems(2) fs by (intro errors_loop_accumulate) simp
  have "details_loop deserialize ds (accumulate pf (errors f))
        = Inr (accumulate (accumulate pf (errors f)) (concat (map errors fs')))"
    using rest Cons.prems(2) fs by (intro Cons.IH) simp_all
  then show ?case using d el fs by (simp add: accumulate_append)
qed

lemma example_partial_failures: "get_partial_failures Inr example_response
   = Inr [1 \<mapsto> ''Code: A, Error: msgACode: B, Error: msgB'', 2 \<mapsto> ''Code: C, Error: msgC'']"
  by (simp add: get_partial_failures_def example_response_def example_errors_def seq_getitem_def add_message_def)

text \<open>
  C6. When the status code of the partial failure is zero the result is the empty mapping,
  whatever the details hold.
\<close>

theorem partial_failures_code_zero:
  "partial_failure_error response = Some st \<Longrightarrow> code st = Some 0 \<Longrightarrow>
   get_partial_failures deserialize response = Inr Map.empty"
  by (simp add: get_partial_failures_def)

theorem partial_failures_code_zero_witness:
  "get_partial_failures undecodable
     \<lparr>partial_failure_error = Some \<lparr>code = Some 0, details = Some [(), ()]\<rparr>\<rparr> = Inr Map.empty"
  using partial_failures_code_zero
    [of "\<lparr>partial_failure_error = Some \<lparr>code = Some 0, details = Some [(), ()]\<rparr>\<rparr>"
        "\<lparr>code = Some 0, details = Some [(), ()]\<rparr>" undecodable]
  by simp

text \<open>
  C10. When the response has no \<open>partial_failure_error\<close>, or its code is not zero (or is
  missing) and its details are missing or empty, the function returns the empty mapping
  and raises nothing.
\<close>

theorem partial_failures_no_structure:
  "partial_failure_error response = None
   \<or> (\<exists>st. partial_failure_error response = Some st \<and> code st \<noteq> Some 0
           \<and> (details st = None \<or> details st = Some []))
   \<Longrightarrow> get_partial_failures deserialize response = Inr Map.empty"
  by (auto simp: get_partial_failures_def Let_def)

theorem partial_failures_no_structure_witness:
  "get_partial_failures undecodable \<lparr>partial_failure_error = None\<rparr> = Inr Map.empty
   \<and> get_partial_failures undecodable
       \<lparr>partial_failure_error = Some \<lparr>code = Some 3, details = None\<rparr>\<rparr> = Inr Map.empty
   \<and> get_partial_failures undecodable
       \<lparr>partial_failure_error = Some \<lparr>code = None, details = Some []\<rparr>\<rparr> = Inr Map.empty"
  using partial_failures_no_structure [of "\<lparr>partial_failure_error = None\<rparr>" undecodable]
    partial_failures_no_structure
      [of "\<lparr>partial_failure_error = Some \<lparr>code = Some 3, details = None\<rparr>\<rparr>" undecodable]
    partial_failures_no_structure
      [of "\<lparr>partial_failure_error = Some \<lparr>code = None, details = Some []\<rparr>\<rparr>" undecodable]
  by simp

text \<open>
  C7. When the code is not zero, every detail decodes and every error has a location
  path, the result maps an index to the texts of all errors whose first path element
  carries that index, joined in order with nothing between them, each text being
  \<open>Code: <error code>, Error: <message>\<close>; an index no error carries is absent.
\<close>

theorem partial_failures_accumulate:
  assumes "partial_failure_error response = Some st" "code st \<noteq> Some 0" "details st = Some ds"
    "map deserialize ds = map Inr fs"
    "\<forall>f\<in>set fs. \<forall>e\<in>set (errors f). field_path_elements e \<noteq> []"
  shows "get_partial_failures deserialize response =
     Inr (\<lambda>k. if texts_at (concat (map errors fs)) k = [] then None
              else Some (concat (texts_at (concat (map errors fs)) k)))"
proof -
  have "get_partial_failures deserialize response = details_loop deserialize ds Map.empty"
    using assms(1-3) by (simp add: get_partial_failures_def Let_def)
  also have "\<dots> = Inr (accumulate Map.empty (concat (map errors fs)))"
    using assms(4,5) by (rule details_loop_accumulate)
  finally show ?thesis by (simp only: accumulate_empty)
qed

theorem partial_failures_accumulate_witness:
  "get_partial_failures Inr example_response =
     Inr (\<lambda>k. if texts_at example_errors k = [] then None else Some (concat (texts_at example_errors k)))
   \<and> texts_at example_errors 0 = []
   \<and> concat (texts_at example_errors 1) = ''Code: A, Error: msgACode: B, Error: msgB''
   \<and> concat (texts_at example_errors 2) = ''Code: C, Error: msgC''"
proof -
  have 1: "partial_failure_error example_response
           = Some \<lparr>code = Some 3, details = Some [\<lparr>errors = example_errors\<rparr>]\<rparr>"
    by (simp add: example_response_def)
  have 2: "code \<lparr>code = Some 3, details = Some [\<lparr>errors = example_errors\<rparr>]\<rparr> \<noteq> Some 0" by simp
  have 3: "details \<lparr>code = Some (3::int), details = Some [\<lparr>errors = example_errors\<rparr>]\<rparr>
           = Some [\<lparr>errors = example_errors\<rparr>]" by simp
  have 4: "map Inr [\<lparr>errors = example_errors\<rparr>] = map Inr [\<lparr>errors = example_errors\<rparr>]" by simp
  have 5: "\<forall>f\<in>set [\<lparr>errors = example_errors\<rparr>]. \<forall>e\<in>set (errors f). field_path_elements e \<noteq> []"
    by (simp add: example_errors_def)
  have c: "concat (map errors [\<lparr>errors = example_errors\<rparr>]) = example_errors" by simp
  from partial_failures_accumulate [OF 1 2 3 4 5] have
    "get_partial_failures Inr example_response =
     Inr (\<lambda>k. if texts_at example_errors k = [] then None else Some (concat (texts_at example_errors k)))"
    unfolding c .
  moreover have "texts_at example_errors 0 = []"
    and "concat (texts_at example_errors 1) = ''Code: A, Error: msgACode: B, Error: msgB''"
    and "concat (texts_at example_errors 2) = ''Code: C, Error: msgC''"
    by (simp_all add: texts_at_def error_text_def error_index_def example_errors_def)
  ultimately show ?thesis by blast
qed

text \<open>
  For errors at the indices 1, 1 and 2 the two texts of index 1 are joined directly: the
  result is neither the messages joined by \<open>; \<close> nor the texts joined by \<open>; \<close>.
\<close>

theorem partial_failures_separator_counterexample:
  "get_partial_failures Inr example_response
     = Inr [1 \<mapsto> ''Code: A, Error: msgACode: B, Error: msgB'', 2 \<mapsto> ''Code: C, Error: msgC'']
   \<and> get_partial_failures Inr example_response \<noteq> Inr [1 \<mapsto> ''msgA; msgB'', 2 \<mapsto> ''msgC'']
   \<and> get_partial_failures Inr example_response
     \<noteq> Inr [1 \<mapsto> ''Code: A, Error: msgA; Code: B, Error: msgB'', 2 \<mapsto> ''Code: C, Error: msgC'']"
proof -
  have e: "get_partial_failures Inr example_response
     = Inr [1 \<mapsto> ''Code: A, Error: msgACode: B, Error: msgB'', 2 \<mapsto> ''Code: C, Error: msgC'']"
    by (rule example_partial_failures)
  have n1: "[1 \<mapsto> ''Code: A, Error: msgACode: B, Error: msgB'', 2 \<mapsto> ''Code: C, Error: msgC'']
        \<noteq> [(1::int) \<mapsto> ''msgA; msgB'', 2 \<mapsto> ''msgC'']"
    by (auto dest: fun_cong [of _ _ 1])
  have n2: "[1 \<mapsto> ''Code: A, Error: msgACode: B, Error: msgB'', 2 \<mapsto> ''Code: C, Error: msgC'']
        \<noteq> [(1::int) \<mapsto> ''Code: A, Error: msgA; Code: B, Error: msgB'', 2 \<mapsto> ''Code: C, Error: msgC'']"
    by (auto dest: fun_cong [of _ _ 1])
  from e n1 n2 show ?thesis by simp
qed

section \<open>Reading the answer of the validation API\<close>

lemma dict_getitem_present:
  "k \<in> set (map fst d) \<Longrightarrow> \<exists>v. dict_getitem d k = Inr v"
  by (cases "map_of d k") (auto simp: dict_getitem_def map_of_eq_None_iff)

lemma build_payload_has_fields:
  assumes "event_has_fields self event"
  shows "\<exists>payload. build_payload self event = Inr payload"
proof -
  have a: "payload_type self = Some FIREBASE \<Longrightarrow> \<exists>v. dict_getitem event ''app_instance_id'' = Inr v"
    using assms by (intro dict_getitem_present) (simp add: event_has_fields_def)
  have c: "payload_type self = Some GTAG \<Longrightarrow> \<exists>v. dict_getitem event ''client_id'' = Inr v"
    using assms by (intro dict_getitem_present) (simp add: event_has_fields_def)
  obtain u where u: "dict_getitem event ''user_id'' = Inr u"
    using assms dict_getitem_present [of "''user_id''" event] by (auto simp: event_has_fields_def)
  obtain n where n: "dict_getitem event ''event_name'' = Inr n"
    using assms dict_getitem_present [of "''event_name''" event] by (auto simp: event_has_fields_def)
  obtain t where t: "dict_getitem event ''engagement_time_msec'' = Inr t"
    using assms dict_getitem_present [of "''engagement_time_msec''" event]
    by (auto simp: event_has_fields_def)
  obtain s where s: "dict_getitem event ''session_id'' = Inr s"
    using assms dict_getitem_present [of "''session_id''" event] by (auto simp: event_has_fields_def)
  show ?thesis
    using a c by (auto simp: build_payload_def u n t s Let_def)
qed

lemma error_types_loop_find:
  "error_types_loop T fp (PStr d) =
     (case find (\<lambda>(name, k). fp = PStr name \<or> str_contains name d) T of
        None \<Rightarrow> Inr ()
      | Some (name, k) \<Rightarrow> Inl (DataOutConnectorValueError (Member k)))"
proof (induction T)
  case Nil
  show ?case by simp
next
  case (Cons p T)
  obtain name k where p: "p = (name, k)" by (cases p)
  show ?case
  proof (cases "fp = PStr name \<or> str_contains name d")
    case True
    then show ?thesis by (auto simp: p)
  next
    case False
    then show ?thesis using Cons.IH by (simp add: p)
  qed
qed

lemma parse_first_message:
  assumes "status_code response = 200" "json response = Some (PDict body)"
    "map_of body ''validationMessages'' = Some (PList (PDict m # rest))"
    "map_of m ''fieldPath'' = Some fp" "map_of m ''description'' = Some (PStr d)"
  shows "parse_validate_result T event response =
     (case find (\<lambda>(name, k). fp = PStr name \<or> str_contains name d) T of
        None \<Rightarrow> (Inl (DataOutConnectorValueError (Member GA4_HOOK_ERROR_INVALID_VALUES)),
                 [Log_error fp (PStr d)])
      | Some (name, k) \<Rightarrow> (Inl (DataOutConnectorValueError (Member k)), []))"
  using assms
  by (simp add: parse_validate_result_def dict_getitem_def seq_getitem_def error_types_loop_find
           split: option.splits)

lemma parse_no_messages:
  assumes "status_code response = 200" "json response = Some (PDict body)"
    "map_of body ''validationMessages'' = Some (PList [])"
  shows "parse_validate_result T event response = (Inr (), [])"
  using assms by (simp add: parse_validate_result_def dict_getitem_def)

lemma parse_well_formed:
  assumes "well_formed_outcome (Responds response)"
  shows "fst (parse_validate_result T event response) = Inr ()
         \<or> (\<exists>n. fst (parse_validate_result T event response) = Inl (DataOutConnectorValueError n))"
proof (cases "status_code response = 200")
  case False
  then show ?thesis by (simp add: parse_validate_result_def)
next
  case s: True
  show ?thesis
  proof (cases "json response")
    case None
    then show ?thesis using s by (simp add: parse_validate_result_def)
  next
    case (Some b)
    with assms s have vb: "is_validation_body b" by simp
    then obtain body msgs where b: "b = PDict body"
      and msgs: "map_of body ''validationMessages'' = Some (PList msgs)"
      and all: "list_all is_validation_message msgs"
      by (cases b) (auto split: option.splits py.splits)
    show ?thesis
    proof (cases msgs)
      case Nil
      then show ?thesis using s Some b msgs by (simp add: parse_no_messages)
    next
      case (Cons x rest)
      with all have "is_validation_message x" by simp
      then obtain m fp d where x: "x = PDict m" and fp: "map_of m ''fieldPath'' = Some fp"
        and d: "map_of m ''description'' = Some (PStr d)"
        by (cases x) (auto split: option.splits py.splits)
      have "parse_validate_result T event response =
        (case find (\<lambda>(name, k). fp = PStr name \<or> str_contains name d) T of
           None \<Rightarrow> (Inl (DataOutConnectorValueError (Member GA4_HOOK_ERROR_INVALID_VALUES)),
                    [Log_error fp (PStr d)])
         | Some (name, k) \<Rightarrow> (Inl (DataOutConnectorValueError (Member k)), []))"
        using s Some b msgs Cons x fp d by (intro parse_first_message) simp_all
      then show ?thesis by (auto split: option.splits)
    qed
  qed
qed

text \<open>
  The two branches on a status other than 200 raise the member of \<open>ErrorNameIDMap\<close>
  itself, whatever the body is.
\<close>

lemma status_not_200:
  "(500 \<le> status_code response \<longrightarrow>
      parse_validate_result T event response
        = (Inl (DataOutConnectorValueError (Member RETRIABLE_GA4_HOOK_ERROR_HTTP_ERROR)), []))
   \<and> (status_code response < 500 \<and> status_code response \<noteq> 200 \<longrightarrow>
      parse_validate_result T event response
        = (Inl (DataOutConnectorValueError (Member NON_RETRIABLE_ERROR_EVENT_NOT_SENT)), []))"
  by (simp add: parse_validate_result_def)

text \<open>
  The branch on \<open>json.JSONDecodeError\<close> passes \<open>.value\<close> of the member as \<open>error_num\<close>,
  for every answer with status 200 whose body does not decode.
\<close>

lemma status_200_undecodable:
  "status_code response = 200 \<Longrightarrow> json response = None \<Longrightarrow>
   parse_validate_result T event response
     = (Inl (DataOutConnectorValueError (Value_of RETRIABLE_GA4_HOOK_ERROR_HTTP_ERROR)), [])"
  by (simp add: parse_validate_result_def)

text \<open>
  Reading \<open>message["fieldPath"]\<close> raises \<open>KeyError\<close> for every first message that has no
  such entry, before the description is looked at.
\<close>

lemma first_message_without_field_path:
  assumes "status_code response = 200" "json response = Some (PDict body)"
    "map_of body ''validationMessages'' = Some (PList (PDict m # rest))"
    "map_of m ''fieldPath'' = None"
  shows "parse_validate_result T event response = (Inl (KeyError ''fieldPath''), [])"
  using assms by (simp add: parse_validate_result_def dict_getitem_def seq_getitem_def)

text \<open>
  C2. An answer with status 200 whose body does not decode is not recorded with the error
  that a status of 500 or more gives. \<open>_parse_validate_result\<close> raises the error with
  \<open>error_num\<close> set to \<open>RETRIABLE_GA4_HOOK_ERROR_HTTP_ERROR.value\<close>, where the branch on a
  status of 500 or more and \<open>_send_validate_request\<close> pass the member itself; so for a
  batch of one event the invalid list holds the raw value at index 0 and not the member
  of \<open>ErrorNameIDMap\<close> that the return annotation of \<open>_get_valid_and_invalid_events\<close>
  declares, and the two answers give different results.
\<close>

theorem undecodable_body_error_num:
  "fst (parse_validate_result example_error_types example_event undecodable_body)
     = Inl (DataOutConnectorValueError (Value_of RETRIABLE_GA4_HOOK_ERROR_HTTP_ERROR))
   \<and> fst (parse_validate_result example_error_types example_event unavailable)
     = Inl (DataOutConnectorValueError (Member RETRIABLE_GA4_HOOK_ERROR_HTTP_ERROR))
   \<and> get_valid_and_invalid_events example_destination example_error_types
        undecodable_body_post [example_event]
     = Inr ([], [(0, Value_of RETRIABLE_GA4_HOOK_ERROR_HTTP_ERROR)])
   \<and> get_valid_and_invalid_events example_destination example_error_types
        unavailable_post [example_event]
     = Inr ([], [(0, Member RETRIABLE_GA4_HOOK_ERROR_HTTP_ERROR)])
   \<and> get_valid_and_invalid_events example_destination example_error_types
        undecodable_body_post [example_event]
     \<noteq> get_valid_and_invalid_events example_destination example_error_types
        unavailable_post [example_event]"
  by (simp add: get_valid_and_invalid_events_def enumerate_eq_zip
        build_payload_def dict_getitem_def send_validate_request_def parse_validate_result_def
        example_destination_def example_event_def undecodable_body_def unavailable_def
        undecodable_body_post_def unavailable_post_def)

text \<open>
  C3. A first validation message that has no \<open>fieldPath\<close> is not classified by its
  description. For the message with the description \<open>Missing client_id\<close> and no
  \<open>fieldPath\<close>, and a table that has the entry \<open>client_id\<close>, reading \<open>message["fieldPath"]\<close>
  raises \<open>KeyError\<close>, although \<open>client_id\<close> occurs in the description and the same
  message with an empty \<open>fieldPath\<close> raises the error of the entry \<open>client_id\<close>. The
  \<open>KeyError\<close> is not caught: for a batch of two events it leaves
  \<open>_get_valid_and_invalid_events\<close>, which returns neither list, where the message with
  the empty \<open>fieldPath\<close> puts both events in the invalid list.
\<close>

theorem missing_field_path_key_error:
  "parse_validate_result example_error_types example_event
        (messages_response [description_only_message])
     = (Inl (KeyError ''fieldPath''), [])
   \<and> str_contains ''client_id'' ''Missing client_id''
   \<and> parse_validate_result example_error_types example_event
        (messages_response [client_id_message])
     = (Inl (DataOutConnectorValueError
               (Member (OTHER_MEMBER ''GA4_HOOK_ERROR_VALUE_INVALID_CLIENT_ID''))), [])
   \<and> get_valid_and_invalid_events example_destination example_error_types
        description_only_post [example_event, example_event]
     = Inl (KeyError ''fieldPath'')
   \<and> get_valid_and_invalid_events example_destination example_error_types
        client_id_post [example_event, example_event]
     = Inr ([], [(0, Member (OTHER_MEMBER ''GA4_HOOK_ERROR_VALUE_INVALID_CLIENT_ID'')),
                 (1, Member (OTHER_MEMBER ''GA4_HOOK_ERROR_VALUE_INVALID_CLIENT_ID''))])"
  by (simp add: get_valid_and_invalid_events_def enumerate_eq_zip
        build_payload_def dict_getitem_def send_validate_request_def parse_validate_result_def
        seq_getitem_def example_destination_def example_event_def example_error_types_def
        messages_response_def description_only_message_def client_id_message_def
        description_only_post_def client_id_post_def)

section \<open>Splitting a batch into valid and invalid events\<close>

lemma events_loop_step:
  "events_loop self T post ((i, event) # rest) (v, iv) =
     (case outcome_at self T post (i, event) of
        Valid \<Rightarrow> events_loop self T post rest (v @ [(i, event)], iv)
      | Invalid n \<Rightarrow> events_loop self T post rest (v, iv @ [(i, n)])
      | Escapes e \<Rightarrow> Inl e)"
  by (simp add: outcome_at_def classify_event_def validate_event_def
           split: sum.splits py_exception.splits)

declare events_loop.simps(2) [simp del]

lemma events_loop_returns:
  "\<forall>p\<in>set ps. \<forall>e. outcome_at self T post p \<noteq> Escapes e \<Longrightarrow>
   events_loop self T post ps (v, iv) =
     Inr (v @ valid_part (outcome_at self T post) ps, iv @ invalid_part (outcome_at self T post) ps)"
proof (induction ps arbitrary: v iv)
  case Nil
  show ?case by (simp add: valid_part_def invalid_part_def)
next
  case (Cons p ps)
  obtain i event where p: "p = (i, event)" by (cases p)
  have rest: "\<forall>p\<in>set ps. \<forall>e. outcome_at self T post p \<noteq> Escapes e"
    using Cons.prems by simp
  show ?case
  proof (cases "outcome_at self T post (i, event)")
    case Valid
    then show ?thesis
      using Cons.IH [OF rest] by (simp add: p events_loop_step valid_part_def invalid_part_def)
  next
    case (Invalid n)
    then show ?thesis
      using Cons.IH [OF rest] by (simp add: p events_loop_step valid_part_def invalid_part_def)
  next
    case (Escapes e)
    then show ?thesis using Cons.prems by (simp add: p)
  qed
qed

lemma events_loop_no_escape:
  "events_loop self T post ps (v, iv) = Inr r \<Longrightarrow>
   \<forall>p\<in>set ps. \<forall>e. outcome_at self T post p \<noteq> Escapes e"
proof (induction ps arbitrary: v iv)
  case Nil
  show ?case by simp
next
  case (Cons p ps)
  obtain i event where p: "p = (i, event)" by (cases p)
  show ?case
  proof (cases "outcome_at self T post (i, event)")
    case Valid
    then show ?thesis using Cons.prems Cons.IH by (auto simp: p events_loop_step)
  next
    case (Invalid n)
    then show ?thesis using Cons.prems Cons.IH by (auto simp: p events_loop_step)
  next
    case (Escapes e)
    then show ?thesis using Cons.prems by (simp add: p events_loop_step)
  qed
qed

lemma fst_invalid_part:
  "map fst (invalid_part c ps) = map fst (filter (\<lambda>p. \<exists>n. c p = Invalid n) ps)"
  by (induction ps) (auto simp: invalid_part_def split: event_outcome.splits)

lemma sorted_fst_filter:
  "sorted_wrt (<) (map fst ps) \<Longrightarrow> sorted_wrt (<) (map fst (filter P ps))"
  by (simp add: sorted_wrt_map sorted_wrt_filter)

lemma sorted_fst_enumerate: "sorted_wrt (<) (map fst (List.enumerate 0 xs))"
  by (simp add: map_fst_enumerate)

lemma disjoint_fst_filter:
  assumes "distinct (map fst ps)" "\<forall>p\<in>set ps. \<not> (P p \<and> Q p)"
  shows "set (map fst (filter P ps)) \<inter> set (map fst (filter Q ps)) = {}"
proof -
  have inj: "inj_on fst (set ps)" using assms(1) by (simp add: distinct_map)
  show ?thesis
  proof (rule ccontr)
    assume "set (map fst (filter P ps)) \<inter> set (map fst (filter Q ps)) \<noteq> {}"
    then obtain p q where "p \<in> set ps" "P p" "q \<in> set ps" "Q q" "fst p = fst q"
      by auto
    then show False using inj assms(2) by (auto dest: inj_onD)
  qed
qed

lemma union_fst_filter:
  assumes "\<forall>p\<in>set ps. P p \<or> Q p"
  shows "set (map fst (filter P ps)) \<union> set (map fst (filter Q ps)) = set (map fst ps)"
  using assms by auto

lemma length_filter_split:
  assumes "\<forall>p\<in>set ps. P p \<noteq> Q p"
  shows "length (filter P ps) + length (filter Q ps) = length ps"
proof -
  have "filter Q ps = filter (\<lambda>p. \<not> P p) ps"
    using assms by (intro filter_cong) auto
  then show ?thesis by (simp add: sum_length_filter_compl)
qed

lemma validate_event_well_formed:
  assumes "\<forall>url body. well_formed_outcome (post url body)"
  shows "validate_event self T post event payload = Inr ()
         \<or> (\<exists>n. validate_event self T post event payload = Inl (DataOutConnectorValueError n))"
proof -
  let ?o = "post (validate_url self)
              (dict_set payload ''validationBehavior'' (PStr ''ENFORCE_RECOMMENDATIONS''))"
  have wf: "well_formed_outcome ?o" using assms by simp
  show ?thesis
  proof (cases ?o)
    case (Responds r)
    then show ?thesis
      using wf parse_well_formed [of r T event]
      by (simp add: validate_event_def send_validate_request_def)
  next
    case Raises_ConnectionError
    then show ?thesis by (simp add: validate_event_def send_validate_request_def)
  next
    case (Raises_other e)
    then show ?thesis using wf by simp
  qed
qed

lemma classify_event_well_formed:
  assumes "event_has_fields self event" "\<forall>url body. well_formed_outcome (post url body)"
  shows "classify_event self T post event \<noteq> Escapes e"
proof -
  obtain payload where p: "build_payload self event = Inr payload"
    using assms(1) build_payload_has_fields by blast
  show ?thesis
    using validate_event_well_formed [OF assms(2), of self T event payload]
    by (auto simp: classify_event_def p)
qed

lemma in_invalid_part:
  "(i, n) \<in> set (invalid_part c ps) \<longleftrightarrow> (\<exists>e. (i, e) \<in> set ps \<and> c (i, e) = Invalid n)"
  by (induction ps) (auto simp: invalid_part_def split: event_outcome.splits)

lemma in_valid_part:
  "p \<in> set (valid_part c ps) \<longleftrightarrow> p \<in> set ps \<and> c p = Valid"
  by (simp add: valid_part_def)

lemma nth_in_enumerate: "i < length xs \<Longrightarrow> (i, xs ! i) \<in> set (List.enumerate 0 xs)"
  by (simp add: in_set_enumerate_eq)

lemma outcome_at_eq:
  "outcome_at self T post (i, event) =
     (case build_payload self event of
        Inl e \<Rightarrow> Escapes e
      | Inr payload \<Rightarrow>
          (case validate_event self T (post i) event payload of
             Inr u \<Rightarrow> Valid
           | Inl (DataOutConnectorValueError n) \<Rightarrow> Invalid n
           | Inl e \<Rightarrow> Escapes e))"
  by (simp add: outcome_at_def classify_event_def)

lemma splits_batch_parts:
  assumes ne: "\<forall>p\<in>set (List.enumerate 0 events). \<forall>e. c p \<noteq> Escapes e"
  shows "splits_batch events (valid_part c (List.enumerate 0 events))
           (invalid_part c (List.enumerate 0 events))"
proof -
  let ?ps = "List.enumerate 0 events"
  let ?P = "\<lambda>p. c p = Valid"
  let ?Q = "\<lambda>p. \<exists>n. c p = Invalid n"
  have srt: "sorted_wrt (<) (map fst ?ps)" by (rule sorted_fst_enumerate)
  have dst: "distinct (map fst ?ps)" by simp
  have alt: "\<forall>p\<in>set ?ps. ?P p \<or> ?Q p"
  proof
    fix p assume "p \<in> set ?ps"
    with ne have "\<forall>e. c p \<noteq> Escapes e" by blast
    then show "?P p \<or> ?Q p" by (cases "c p") auto
  qed
  have excl: "\<forall>p\<in>set ?ps. \<not> (?P p \<and> ?Q p)" by auto
  have neq: "\<forall>p\<in>set ?ps. ?P p \<noteq> ?Q p" using alt by auto
  have 1: "sorted_wrt (<) (map fst (valid_part c ?ps))"
    unfolding valid_part_def using srt by (rule sorted_fst_filter)
  have 2: "sorted_wrt (<) (map fst (invalid_part c ?ps))"
    unfolding fst_invalid_part using srt by (rule sorted_fst_filter)
  have 3: "set (map fst (valid_part c ?ps)) \<inter> set (map fst (invalid_part c ?ps)) = {}"
    unfolding fst_invalid_part valid_part_def using dst excl by (rule disjoint_fst_filter)
  have "set (map fst (valid_part c ?ps)) \<union> set (map fst (invalid_part c ?ps)) = set (map fst ?ps)"
    unfolding fst_invalid_part valid_part_def using alt by (rule union_fst_filter)
  then have 4: "set (map fst (valid_part c ?ps)) \<union> set (map fst (invalid_part c ?ps))
                = {0..<length events}"
    by simp
  have 5: "list_all (\<lambda>(i, event). event = events ! i) (valid_part c ?ps)"
    by (auto simp: list_all_iff valid_part_def in_set_enumerate_eq)
  have "length (invalid_part c ?ps) = length (map fst (invalid_part c ?ps))" by simp
  also have "\<dots> = length (filter ?Q ?ps)" unfolding fst_invalid_part by simp
  finally have "length (valid_part c ?ps) + length (invalid_part c ?ps)
                = length (filter ?P ?ps) + length (filter ?Q ?ps)"
    by (simp add: valid_part_def)
  also have "\<dots> = length ?ps" using neq by (rule length_filter_split)
  finally have 6: "length (valid_part c ?ps) + length (invalid_part c ?ps) = length events"
    by simp
  show ?thesis unfolding splits_batch_def using 1 2 3 4 5 6 by blast
qed

lemma gvie_returns_parts:
  assumes "get_valid_and_invalid_events self T post events = Inr (valid, invalid)"
  shows "(\<forall>p\<in>set (List.enumerate 0 events). \<forall>e. outcome_at self T post p \<noteq> Escapes e)
       \<and> valid = valid_part (outcome_at self T post) (List.enumerate 0 events)
       \<and> invalid = invalid_part (outcome_at self T post) (List.enumerate 0 events)"
proof -
  have loop: "events_loop self T post (List.enumerate 0 events) ([], []) = Inr (valid, invalid)"
    using assms by (simp add: get_valid_and_invalid_events_def)
  then have ne: "\<forall>p\<in>set (List.enumerate 0 events). \<forall>e. outcome_at self T post p \<noteq> Escapes e"
    by (rule events_loop_no_escape)
  from events_loop_returns [OF ne, of "[]" "[]"] loop show ?thesis using ne by simp
qed

lemma gvie_well_formed:
  assumes "\<forall>event\<in>set events. event_has_fields self event"
    "\<forall>i url body. well_formed_outcome (post i url body)"
  shows "get_valid_and_invalid_events self T post events =
     Inr (valid_part (outcome_at self T post) (List.enumerate 0 events),
          invalid_part (outcome_at self T post) (List.enumerate 0 events))"
proof -
  have "\<forall>p\<in>set (List.enumerate 0 events). \<forall>e. outcome_at self T post p \<noteq> Escapes e"
  proof (intro ballI allI)
    fix p e assume "p \<in> set (List.enumerate 0 events)"
    then have a: "fst p < length events" and b: "events ! fst p = snd p"
      by (simp_all add: in_set_enumerate_eq)
    have "snd p \<in> set events" using nth_mem [OF a] b by simp
    with assms(1) have "event_has_fields self (snd p)" by blast
    moreover have "\<forall>url body. well_formed_outcome (post (fst p) url body)" using assms(2) by blast
    ultimately show "outcome_at self T post p \<noteq> Escapes e"
      unfolding outcome_at_def by (rule classify_event_well_formed)
  qed
  from events_loop_returns [OF this, of "[]" "[]"] show ?thesis
    by (simp add: get_valid_and_invalid_events_def)
qed

lemmas eval_defs =
  get_valid_and_invalid_events_def enumerate_eq_zip events_loop.simps build_payload_def
  dict_getitem_def send_validate_request_def parse_validate_result_def seq_getitem_def
  example_destination_def example_event_def example_error_types_def no_messages_def
  empty_object_def unavailable_def mixed_post_def empty_object_post_def no_messages_post_def

lemma mixed_batch_result:
  "get_valid_and_invalid_events example_destination example_error_types mixed_post
     [example_event, example_event, example_event]
   = Inr ([(0, example_event)],
          [(1, Member RETRIABLE_GA4_HOOK_ERROR_HTTP_ERROR),
           (2, Member RETRIABLE_GA4_HOOK_ERROR_HTTP_ERROR)])"
  by (simp add: eval_defs upt_rec)

lemma example_payload:
  "build_payload example_destination example_event =
     Inr [(''client_id'', PStr ''c1''), (''user_id'', PStr ''u1''),
          (''non_personalized_ads'', PBool False),
          (''events'', PList [PDict [(''name'', PStr ''purchase''),
             (''params'', PDict [(''engagement_time_msec'', PInt 500),
                                 (''session_id'', PStr ''s1'')])]])]"
  by (simp add: build_payload_def dict_getitem_def example_destination_def example_event_def)

lemma refused_eval:
  "get_valid_and_invalid_events example_destination example_error_types refused_post
     [example_event] = Inr ([], [(0, Member RETRIABLE_GA4_HOOK_ERROR_HTTP_ERROR)])"
  by (simp add: eval_defs refused_post_def)

text \<open>
  C1. Whenever the function returns, its two lists split the batch. It returns when every
  event carries the fields the payload is built from and every request ends
  well-formed.
\<close>

theorem gvie_partition:
  "(\<forall>valid invalid. get_valid_and_invalid_events self T post events = Inr (valid, invalid)
       \<longrightarrow> splits_batch events valid invalid)
   \<and> ((\<forall>event\<in>set events. event_has_fields self event)
        \<and> (\<forall>i url body. well_formed_outcome (post i url body))
       \<longrightarrow> (\<exists>valid invalid. get_valid_and_invalid_events self T post events = Inr (valid, invalid)))"
proof (intro conjI allI impI)
  fix valid invalid
  assume "get_valid_and_invalid_events self T post events = Inr (valid, invalid)"
  from gvie_returns_parts [OF this] show "splits_batch events valid invalid"
    using splits_batch_parts [of events "outcome_at self T post"] by simp
next
  assume "(\<forall>event\<in>set events. event_has_fields self event)
        \<and> (\<forall>i url body. well_formed_outcome (post i url body))"
  then show "\<exists>valid invalid. get_valid_and_invalid_events self T post events = Inr (valid, invalid)"
    using gvie_well_formed [of events self post T] by simp
qed

theorem gvie_partition_witness:
  "(\<exists>valid invalid.
      get_valid_and_invalid_events example_destination example_error_types mixed_post
        [example_event, example_event, example_event] = Inr (valid, invalid))
   \<and> splits_batch [example_event, example_event, example_event] [(0, example_event)]
        [(1, Member RETRIABLE_GA4_HOOK_ERROR_HTTP_ERROR),
         (2, Member RETRIABLE_GA4_HOOK_ERROR_HTTP_ERROR)]"
proof -
  let ?events = "[example_event, example_event, example_event]"
  have fields: "\<forall>event\<in>set ?events. event_has_fields example_destination event"
    by (simp add: event_has_fields_def example_destination_def example_event_def)
  have env: "\<forall>i url body. well_formed_outcome (mixed_post i url body)"
    by (simp add: mixed_post_def no_messages_def unavailable_def)
  note inst = gvie_partition [of example_destination example_error_types mixed_post ?events]
  from inst fields env have ex: "\<exists>valid invalid.
      get_valid_and_invalid_events example_destination example_error_types mixed_post ?events
        = Inr (valid, invalid)"
    by blast
  from inst mixed_batch_result have "splits_batch ?events [(0, example_event)]
        [(1, Member RETRIABLE_GA4_HOOK_ERROR_HTTP_ERROR),
         (2, Member RETRIABLE_GA4_HOOK_ERROR_HTTP_ERROR)]"
    by blast
  with ex show ?thesis by blast
qed

text \<open>
  An event with all its fields whose request is answered with status 200 and the body
  \<open>{}\<close>: the \<open>KeyError\<close> of the missing key leaves the function, which returns no lists.
\<close>

theorem missing_key_counterexample:
  "get_valid_and_invalid_events example_destination example_error_types empty_object_post
     [example_event] = Inl (KeyError ''validationMessages'')"
  by (simp add: eval_defs)

text \<open>
  C4. A request that raises \<open>requests.ConnectionError\<close> puts its event into the invalid
  list with the retriable HTTP error, and not into the valid list; this is the error
  number a status of 500 or more gives.
\<close>

theorem connection_error_invalid:
  assumes i: "i < length events"
    and payload: "build_payload self (events ! i) = Inr payload"
    and refused: "post i (validate_url self)
        (dict_set payload ''validationBehavior'' (PStr ''ENFORCE_RECOMMENDATIONS''))
        = Raises_ConnectionError"
    and returns: "get_valid_and_invalid_events self T post events = Inr (valid, invalid)"
  shows "send_validate_request self (post i) payload
           = Inl (DataOutConnectorValueError (Member RETRIABLE_GA4_HOOK_ERROR_HTTP_ERROR))
       \<and> (i, Member RETRIABLE_GA4_HOOK_ERROR_HTTP_ERROR) \<in> set invalid
       \<and> i \<notin> set (map fst valid)
       \<and> (500 \<le> status_code response \<longrightarrow>
            fst (parse_validate_result T event response)
              = Inl (DataOutConnectorValueError (Member RETRIABLE_GA4_HOOK_ERROR_HTTP_ERROR)))"
proof -
  let ?R = "Member RETRIABLE_GA4_HOOK_ERROR_HTTP_ERROR"
  let ?ps = "List.enumerate 0 events"
  let ?c = "outcome_at self T post"
  have send: "send_validate_request self (post i) payload = Inl (DataOutConnectorValueError ?R)"
    using refused by (simp add: send_validate_request_def)
  then have out: "?c (i, events ! i) = Invalid ?R"
    using payload by (simp add: outcome_at_eq validate_event_def)
  have parts: "valid = valid_part ?c ?ps" "invalid = invalid_part ?c ?ps"
    using gvie_returns_parts [OF returns] by simp_all
  have mem: "(i, events ! i) \<in> set ?ps" using i by (rule nth_in_enumerate)
  have inv: "(i, ?R) \<in> set invalid"
    unfolding parts in_invalid_part using mem out by blast
  have "i \<notin> set (map fst valid)"
  proof
    assume "i \<in> set (map fst valid)"
    then obtain e where e: "(i, e) \<in> set ?ps" and v: "?c (i, e) = Valid"
      unfolding parts by (auto simp: in_valid_part)
    from e have "e = events ! i" by (simp add: in_set_enumerate_eq)
    with v out show False by simp
  qed
  with send inv show ?thesis by (simp add: parse_validate_result_def)
qed

theorem connection_error_invalid_witness:
  "send_validate_request example_destination (refused_post 0)
      [(''client_id'', PStr ''c1''), (''user_id'', PStr ''u1''),
       (''non_personalized_ads'', PBool False),
       (''events'', PList [PDict [(''name'', PStr ''purchase''),
          (''params'', PDict [(''engagement_time_msec'', PInt 500),
                              (''session_id'', PStr ''s1'')])]])]
     = Inl (DataOutConnectorValueError (Member RETRIABLE_GA4_HOOK_ERROR_HTTP_ERROR))
   \<and> (0, Member RETRIABLE_GA4_HOOK_ERROR_HTTP_ERROR)
       \<in> set [(0::nat, Member RETRIABLE_GA4_HOOK_ERROR_HTTP_ERROR)]"
proof -
  have i: "0 < length [example_event]" by simp
  have p: "build_payload example_destination ([example_event] ! 0) = Inr
      [(''client_id'', PStr ''c1''), (''user_id'', PStr ''u1''),
       (''non_personalized_ads'', PBool False),
       (''events'', PList [PDict [(''name'', PStr ''purchase''),
          (''params'', PDict [(''engagement_time_msec'', PInt 500),
                              (''session_id'', PStr ''s1'')])]])]"
    using example_payload by simp
  have r: "refused_post 0 (validate_url example_destination)
      (dict_set [(''client_id'', PStr ''c1''), (''user_id'', PStr ''u1''),
       (''non_personalized_ads'', PBool False),
       (''events'', PList [PDict [(''name'', PStr ''purchase''),
          (''params'', PDict [(''engagement_time_msec'', PInt 500),
                              (''session_id'', PStr ''s1'')])]])]
        ''validationBehavior'' (PStr ''ENFORCE_RECOMMENDATIONS''))
      = Raises_ConnectionError"
    by (simp add: refused_post_def)
  from connection_error_invalid [OF i p r refused_eval] show ?thesis by simp
qed

text \<open>
  A refused connection and an answer with status 503 raise the same error number: the
  code has no kind of its own for transport failures.
\<close>

theorem transport_kind_counterexample:
  "send_validate_request example_destination connection_refused_post []
     = Inl (DataOutConnectorValueError (Member RETRIABLE_GA4_HOOK_ERROR_HTTP_ERROR))
   \<and> fst (parse_validate_result example_error_types example_event unavailable)
     = Inl (DataOutConnectorValueError (Member RETRIABLE_GA4_HOOK_ERROR_HTTP_ERROR))"
  by (simp add: send_validate_request_def connection_refused_post_def
        parse_validate_result_def unavailable_def)

text \<open>
  C5. When every event carries the fields the payload is built from and every request
  ends well-formed, the function returns, every event of the batch is in one of the two
  lists, an event whose validation raises \<open>DataOutConnectorValueError\<close> is in the invalid
  list with the error number raised, and an event whose validation passes is in the
  valid list.
\<close>

theorem failures_captured:
  assumes fields: "\<forall>event\<in>set events. event_has_fields self event"
    and env: "\<forall>i url body. well_formed_outcome (post i url body)"
  shows "\<exists>valid invalid.
      get_valid_and_invalid_events self T post events = Inr (valid, invalid)
    \<and> length valid + length invalid = length events
    \<and> (\<forall>i<length events. \<forall>payload.
          build_payload self (events ! i) = Inr payload \<longrightarrow>
            (\<forall>n. validate_event self T (post i) (events ! i) payload
                    = Inl (DataOutConnectorValueError n) \<longrightarrow> (i, n) \<in> set invalid)
          \<and> (validate_event self T (post i) (events ! i) payload = Inr ()
                \<longrightarrow> (i, events ! i) \<in> set valid))"
proof -
  let ?ps = "List.enumerate 0 events"
  let ?c = "outcome_at self T post"
  have ret: "get_valid_and_invalid_events self T post events
             = Inr (valid_part ?c ?ps, invalid_part ?c ?ps)"
    using fields env by (rule gvie_well_formed)
  have ne: "\<forall>p\<in>set ?ps. \<forall>e. ?c p \<noteq> Escapes e"
    using gvie_returns_parts [OF ret] by blast
  have len: "length (valid_part ?c ?ps) + length (invalid_part ?c ?ps) = length events"
    using splits_batch_parts [OF ne] by (simp add: splits_batch_def)
  have each: "\<forall>i<length events. \<forall>payload.
          build_payload self (events ! i) = Inr payload \<longrightarrow>
            (\<forall>n. validate_event self T (post i) (events ! i) payload
                    = Inl (DataOutConnectorValueError n)
                  \<longrightarrow> (i, n) \<in> set (invalid_part ?c ?ps))
          \<and> (validate_event self T (post i) (events ! i) payload = Inr ()
                \<longrightarrow> (i, events ! i) \<in> set (valid_part ?c ?ps))"
  proof (intro allI impI conjI)
    fix i payload n
    assume i: "i < length events" and p: "build_payload self (events ! i) = Inr payload"
      and v: "validate_event self T (post i) (events ! i) payload
                = Inl (DataOutConnectorValueError n)"
    have "?c (i, events ! i) = Invalid n" using p v by (simp add: outcome_at_eq)
    then show "(i, n) \<in> set (invalid_part ?c ?ps)"
      unfolding in_invalid_part using nth_in_enumerate [OF i] by blast
  next
    fix i payload
    assume i: "i < length events" and p: "build_payload self (events ! i) = Inr payload"
      and v: "validate_event self T (post i) (events ! i) payload = Inr ()"
    have "?c (i, events ! i) = Valid" using p v by (simp add: outcome_at_eq)
    then show "(i, events ! i) \<in> set (valid_part ?c ?ps)"
      unfolding in_valid_part using nth_in_enumerate [OF i] by blast
  qed
  from ret len each show ?thesis by blast
qed

theorem failures_captured_witness:
  "\<exists>valid invalid.
      get_valid_and_invalid_events example_destination example_error_types mixed_post
        [example_event, example_event, example_event] = Inr (valid, invalid)
    \<and> length valid + length invalid = 3"
proof -
  let ?events = "[example_event, example_event, example_event]"
  have fields: "\<forall>event\<in>set ?events. event_has_fields example_destination event"
    by (simp add: event_has_fields_def example_destination_def example_event_def)
  have env: "\<forall>i url body. well_formed_outcome (mixed_post i url body)"
    by (simp add: mixed_post_def no_messages_def unavailable_def)
  from failures_captured [OF fields env, of example_error_types] show ?thesis by auto
qed

text \<open>
  An event without \<open>user_id\<close> raises \<open>KeyError\<close> while the payload is built, outside the
  \<open>try\<close>; an answer without the key \<open>validationMessages\<close> raises \<open>KeyError\<close> inside
  it, where only \<open>DataOutConnectorValueError\<close> is caught. Either way the exception leaves
  the function and the rest of the batch is not validated.
\<close>

theorem exception_escapes_counterexample:
  "get_valid_and_invalid_events example_destination example_error_types no_messages_post
     [[(''client_id'', PStr ''c1'')], example_event] = Inl (KeyError ''user_id'')
   \<and> get_valid_and_invalid_events example_destination example_error_types empty_object_post
     [example_event, example_event] = Inl (KeyError ''validationMessages'')"
  by (simp add: eval_defs)

end
